theory Spec2Isabelle
  imports Complex_Main
begin

section \<open>JavaScript values used by rem.js\<close>

text \<open>
  JavaScript numbers are modelled by \<open>real\<close> (counts and indices by \<open>int\<close>): rounding,
  infinities and the range of doubles are outside the model. The one place where rem.js can
  produce NaN from finite inputs, the remainder by a zero duration, is kept as a value of
  its own. A call that raises is a value \<open>Inl e\<close> of the result type, a call that returns
  normally is \<open>Inr v\<close>.
\<close>

datatype js_error = InvalidStateError | RangeError | TypeError

datatype jsnum = NaN | Num real

text \<open>\<open>Math.trunc\<close>, and the remainder operator \<open>a % b\<close>: the result takes the sign of
  the dividend, and \<open>a % 0\<close> is NaN.\<close>

definition js_trunc :: "real \<Rightarrow> int" where
  "js_trunc x = (if 0 \<le> x then \<lfloor>x\<rfloor> else \<lceil>x\<rceil>)"

definition js_rem :: "real \<Rightarrow> real \<Rightarrow> jsnum" where
  "js_rem a b = (if b = 0 then NaN else Num (a - b * of_int (js_trunc (a / b))))"

text \<open>\<open>String(n)\<close> for an integer: decimal digits, with a minus sign when negative.\<close>

fun digits_of_nat :: "nat \<Rightarrow> string" where
  "digits_of_nat n =
     (if n < 10 then [''0123456789'' ! n]
      else digits_of_nat (n div 10) @ [''0123456789'' ! (n mod 10)])"

declare digits_of_nat.simps [simp del]

definition js_String :: "int \<Rightarrow> string" where
  "js_String i = (if i < 0 then ''-'' @ digits_of_nat (nat (- i)) else digits_of_nat (nat i))"

text \<open>\<open>s.padStart(n, c)\<close> for a one-character pad string, the only use in rem.js.\<close>

definition padStart :: "nat \<Rightarrow> char \<Rightarrow> string \<Rightarrow> string" where
  "padStart n c s = replicate (n - length s) c @ s"

text \<open>The expression \<open>"vid/" + String(i + 1).padStart(3, "0") + ".mp4"\<close>, which
  \<open>precacheVideos\<close> and \<open>blink\<close> both build.\<close>

definition video_filename :: "int \<Rightarrow> string" where
  "video_filename i = ''vid/'' @ padStart 3 (CHR ''0'') (js_String (i + 1)) @ ''.mp4''"

section \<open>precacheVideos\<close>

text \<open>The \<open>for\<close> loop of \<open>precacheVideos\<close>: \<open>i\<close> counts up while \<open>i < numVideos\<close>, each
  round pushes one file name.\<close>

function precacheLoop :: "int \<Rightarrow> int \<Rightarrow> string list \<Rightarrow> string list" where
  "precacheLoop i numVideos videoCache =
     (if i < numVideos
      then precacheLoop (i + 1) numVideos (videoCache @ [video_filename i])
      else videoCache)"
  by pat_completeness auto
termination
  by (relation "measure (\<lambda>(i, numVideos, videoCache). nat (numVideos - i))") auto

declare precacheLoop.simps [simp del]

definition precacheVideos :: "int \<Rightarrow> js_error + string list" where
  "precacheVideos numVideos = Inr (precacheLoop 0 numVideos [])"

section \<open>updateTimeStats\<close>

record time_stats =
  lastTimestamp :: real
  avgDelta :: real

definition updateTimeStats :: "real \<Rightarrow> real \<Rightarrow> real \<Rightarrow> js_error + time_stats" where
  "updateTimeStats lastTimestamp0 avgDelta0 timestamp =
     (let lastTimestamp1 = (if lastTimestamp0 = 0 then timestamp else lastTimestamp0);
          delta = timestamp - lastTimestamp1;
          lastTimestamp2 = timestamp;
          avgDelta1 = avgDelta0 * 0.9 + delta * 0.1
      in Inr \<lparr>lastTimestamp = lastTimestamp2, avgDelta = avgDelta1\<rparr>)"

section \<open>The audio graph, the timers and the page\<close>

text \<open>
  Audio source nodes, gain nodes and video elements are objects that several closures and
  variables refer to, so they live in a store and are referred to by handle: a source or
  gain node by its index in the list of nodes created so far, a video element by its
  \<open>id\<close>. A nullable reference is an \<open>option\<close>.
\<close>

record audio_buffer =
  duration :: real

datatype phase = Created | Playing | Stopped

datatype connection = Unconnected | ToGain nat | ToDestination

record source_node =
  buffer :: "audio_buffer option"
  loop :: bool
  loopStart :: real
  loopEnd :: real
  connectedTo :: connection
  phase :: phase
  startOffset :: jsnum

datatype gain_event = SetValueAtTime real real | LinearRampToValueAtTime real real

record gain_node =
  gain_value :: real
  automation :: "gain_event list"

text \<open>A pending \<open>setTimeout\<close>: its delay in milliseconds and the source node its closure
  captured (the only callback rem.js registers stops one source node).\<close>

datatype timer = StopAfter real nat

text \<open>The \<open>onloadeddata\<close> handler \<open>blink\<close> installs: it captures the element it was
  installed on (\<open>inactiveVideo\<close>) and the other one (\<open>activeVideo\<close>).\<close>

datatype handler = SwapVisibility string string

record video_element =
  src :: string
  loads :: nat
  playing :: bool
  opacity :: string
  zIndex :: string
  onloadeddata :: "handler option"

text \<open>Everything the functions of rem.js read or change besides their arguments:
  the audio context (its clock and the nodes created from it), the pending timers, the
  number of \<open>Math.random()\<close> calls made so far, and the video elements of the page.\<close>

record world =
  currentTime :: real
  sources :: "source_node list"
  gains :: "gain_node list"
  timers :: "timer list"
  rng :: nat
  document :: "(string \<times> video_element) list"

subsection \<open>The Web Audio and DOM calls rem.js makes\<close>

definition createBufferSource :: "world \<Rightarrow> world \<times> nat" where
  "createBufferSource w =
     (w\<lparr>sources := sources w @
         [\<lparr>buffer = None, loop = False, loopStart = 0, loopEnd = 0,
           connectedTo = Unconnected, phase = Created, startOffset = Num 0\<rparr>]\<rparr>,
      length (sources w))"

definition update_source :: "nat \<Rightarrow> (source_node \<Rightarrow> source_node) \<Rightarrow> world \<Rightarrow> world" where
  "update_source h f w = w\<lparr>sources := (sources w)[h := f (sources w ! h)]\<rparr>"

definition update_gain :: "nat \<Rightarrow> (gain_node \<Rightarrow> gain_node) \<Rightarrow> world \<Rightarrow> world" where
  "update_gain g f w = w\<lparr>gains := (gains w)[g := f (gains w ! g)]\<rparr>"

definition setValueAtTime :: "nat \<Rightarrow> real \<Rightarrow> real \<Rightarrow> world \<Rightarrow> world" where
  "setValueAtTime g v t w =
     update_gain g (\<lambda>n. n\<lparr>automation := automation n @ [SetValueAtTime v t]\<rparr>) w"

definition linearRampToValueAtTime :: "nat \<Rightarrow> real \<Rightarrow> real \<Rightarrow> world \<Rightarrow> world" where
  "linearRampToValueAtTime g v t w =
     update_gain g (\<lambda>n. n\<lparr>automation := automation n @ [LinearRampToValueAtTime v t]\<rparr>) w"

text \<open>\<open>source.start(0, offset)\<close>, as the audio primitive behaves: an offset that is not a
  finite number is refused with a TypeError, a node that was started before raises an
  InvalidStateError, a negative offset raises a RangeError; otherwise the node plays from
  \<open>offset\<close>.\<close>

definition source_start :: "nat \<Rightarrow> jsnum \<Rightarrow> world \<Rightarrow> js_error + world" where
  "source_start h off w =
     (case off of
        NaN \<Rightarrow> Inl TypeError
      | Num x \<Rightarrow>
          (if \<not> (h < length (sources w) \<and> phase (sources w ! h) = Created)
           then Inl InvalidStateError
           else if x < 0 then Inl RangeError
           else Inr (update_source h (\<lambda>n. n\<lparr>phase := Playing, startOffset := off\<rparr>) w)))"

text \<open>\<open>source.stop()\<close>, as the audio primitive behaves: a playing node stops, a node
  that was stopped before stays stopped and the call returns, and a node that was never
  started raises an InvalidStateError.\<close>

definition source_stop :: "nat \<Rightarrow> world \<Rightarrow> js_error + world" where
  "source_stop h w =
     (if h < length (sources w) \<and> phase (sources w ! h) = Playing
      then Inr (update_source h (\<lambda>n. n\<lparr>phase := Stopped\<rparr>) w)
      else if h < length (sources w) \<and> phase (sources w ! h) = Stopped
      then Inr w
      else Inl InvalidStateError)"

definition setTimeout :: "timer \<Rightarrow> world \<Rightarrow> world" where
  "setTimeout t w = w\<lparr>timers := timers w @ [t]\<rparr>"

definition getElementById :: "world \<Rightarrow> string \<Rightarrow> video_element option" where
  "getElementById w i = map_of (document w) i"

text \<open>A write to the element \<open>getElementById\<close> finds for the id \<open>i\<close>: the first entry of
  the page with this id.\<close>

fun update_first ::
  "string \<Rightarrow> (video_element \<Rightarrow> video_element) \<Rightarrow> (string \<times> video_element) list \<Rightarrow>
   (string \<times> video_element) list" where
  "update_first i f [] = []"
| "update_first i f ((k, e) # rest) =
     (if k = i then (k, f e) # rest else (k, e) # update_first i f rest)"

definition update_element :: "string \<Rightarrow> (video_element \<Rightarrow> video_element) \<Rightarrow> world \<Rightarrow> world" where
  "update_element i f w = w\<lparr>document := update_first i f (document w)\<rparr>"

definition is_live :: "world \<Rightarrow> nat \<Rightarrow> bool" where
  "is_live w h = (h < length (sources w) \<and> phase (sources w ! h) = Playing)"

section \<open>playAudioFrom\<close>

definition playAudioFrom ::
  "world \<Rightarrow> audio_buffer \<Rightarrow> nat option \<Rightarrow> real \<Rightarrow> js_error + (world \<times> nat)" where
  "playAudioFrom w audioBuffer currentSource startTime =
     (case (case currentSource of None \<Rightarrow> Inr w | Some c \<Rightarrow> source_stop c w) of
        Inl e \<Rightarrow> Inl e
      | Inr w0 \<Rightarrow>
          (let (w1, newSource) = createBufferSource w0;
               w2 = update_source newSource (\<lambda>n. n\<lparr>buffer := Some audioBuffer\<rparr>) w1;
               w3 = update_source newSource (\<lambda>n. n\<lparr>loop := True\<rparr>) w2;
               w4 = update_source newSource (\<lambda>n. n\<lparr>loopStart := 0\<rparr>) w3;
               w5 = update_source newSource (\<lambda>n. n\<lparr>loopEnd := duration audioBuffer\<rparr>) w4;
               w6 = update_source newSource (\<lambda>n. n\<lparr>connectedTo := ToDestination\<rparr>) w5;
               offset = js_rem startTime (duration audioBuffer)
           in case source_start newSource offset w6 of
                Inl e \<Rightarrow> Inl e
              | Inr w7 \<Rightarrow> Inr (w7, newSource)))"

section \<open>playAudioWithCrossfade\<close>

definition playAudioWithCrossfade ::
  "world \<Rightarrow> audio_buffer \<Rightarrow> nat option \<Rightarrow> nat \<Rightarrow> nat \<Rightarrow> real \<Rightarrow> real \<Rightarrow>
   js_error + (world \<times> nat)" where
  "playAudioWithCrossfade w audioBuffer activeSource activeGain inactiveGain startTime
       crossfadeDuration =
     (let now = currentTime w;
          offset = js_rem startTime (duration audioBuffer);
          (w1, newSource) = createBufferSource w;
          w2 = update_source newSource (\<lambda>n. n\<lparr>buffer := Some audioBuffer\<rparr>) w1;
          w3 = update_source newSource (\<lambda>n. n\<lparr>loop := True\<rparr>) w2;
          w4 = update_source newSource (\<lambda>n. n\<lparr>loopStart := 0\<rparr>) w3;
          w5 = update_source newSource (\<lambda>n. n\<lparr>loopEnd := duration audioBuffer\<rparr>) w4;
          w6 = update_source newSource (\<lambda>n. n\<lparr>connectedTo := ToGain inactiveGain\<rparr>) w5;
          w7 = setValueAtTime inactiveGain 0 now w6
      in case source_start newSource offset w7 of
           Inl e \<Rightarrow> Inl e
         | Inr w8 \<Rightarrow>
            (let w9 = setValueAtTime activeGain 1 now w8;
                 w10 = linearRampToValueAtTime activeGain 0 (now + crossfadeDuration) w9;
                 w11 = setValueAtTime inactiveGain 0 now w10;
                 w12 = linearRampToValueAtTime inactiveGain 1 (now + crossfadeDuration) w11;
                 w13 = (case activeSource of
                          None \<Rightarrow> w12
                        | Some a \<Rightarrow>
                            setTimeout (StopAfter (crossfadeDuration * 1000 + 100) a) w12)
             in Inr (w13, newSource)))"

text \<open>The callback of the timer: \<open>try { activeSource.stop(); } catch (e) { }\<close>.\<close>

definition timer_callback :: "timer \<Rightarrow> world \<Rightarrow> js_error + world" where
  "timer_callback t w =
     (case t of StopAfter d a \<Rightarrow>
        (case source_stop a w of Inl e \<Rightarrow> Inr w | Inr w' \<Rightarrow> Inr w'))"

text \<open>The runtime fires the \<open>k\<close>-th pending timer: the timer leaves the queue and its
  callback runs.\<close>

definition fire_timer :: "nat \<Rightarrow> world \<Rightarrow> js_error + world" where
  "fire_timer k w =
     (if k < length (timers w)
      then timer_callback (timers w ! k)
             (w\<lparr>timers := take k (timers w) @ drop (Suc k) (timers w)\<rparr>)
      else Inr w)"

section \<open>blink\<close>

text \<open>
  \<open>Math.random()\<close> is modelled by a sequence \<open>rnd\<close> of numbers, the values the calls
  return in order, and the counter \<open>rng\<close> of the world, the number of calls made so far.
  Nothing is assumed of the sequence but what a theorem states.

  The \<open>do ... while\<close> loop that selects the new video draws until the index differs from
  \<open>currentVideoIndex\<close> or \<open>numVideos\<close> is at most 1. It need not end, so its model is a
  partial function: \<open>None\<close> stands for a loop that runs forever, \<open>Some (v, k)\<close> for a loop
  that leaves with the index \<open>v\<close> after the calls up to number \<open>k\<close>. A
  \<open>currentVideoIndex\<close> of \<open>null\<close> is \<open>None\<close>; it is \<open>===\<close> to no index.

  A call of \<open>blink\<close> whose loop ends either returns, \<open>Some (Inr (result, world))\<close>, or
  passes on the error an audio call raised, \<open>Some (Inl e)\<close>.
\<close>

partial_function (option) pickLoop ::
  "(nat \<Rightarrow> real) \<Rightarrow> nat \<Rightarrow> int \<Rightarrow> int option \<Rightarrow> (int \<times> nat) option" where
  "pickLoop rnd k numVideos currentVideoIndex =
     (if Some \<lfloor>rnd k * of_int numVideos\<rfloor> = currentVideoIndex \<and> numVideos > 1
      then pickLoop rnd (Suc k) numVideos currentVideoIndex
      else Some (\<lfloor>rnd k * of_int numVideos\<rfloor>, Suc k))"

record blink_result =
  audioSource1 :: "nat option"
  audioSource2 :: "nat option"
  activeAudioIndex :: int
  activeVideoIndex :: int
  currentVideoIndex :: int

definition default_crossfadeDuration :: real where
  "default_crossfadeDuration = 0.005"

text \<open>The parameters are those of the source, in its order, after the random sequence and
  the world; \<open>audioContext\<close> says whether the reference passed is non-null (the context
  itself is part of the world). Parameters that the result record also names carry the
  suffix \<open>_in\<close>.\<close>

definition blink ::
  "(nat \<Rightarrow> real) \<Rightarrow> world \<Rightarrow> int \<Rightarrow> int \<Rightarrow> audio_buffer option \<Rightarrow> bool \<Rightarrow>
   nat option \<Rightarrow> nat option \<Rightarrow> nat option \<Rightarrow> nat option \<Rightarrow> int \<Rightarrow> int \<Rightarrow> string \<Rightarrow>
   int option \<Rightarrow> (js_error + blink_result \<times> world) option" where
  "blink rnd w bcounter numVideos audioBuffer audioContext audioSource1_in audioSource2_in
       gainNode1 gainNode2 activeAudioIndex_in activeVideoIndex_in audioAction
       currentVideoIndex_in =
     (let activeId = ''blinkVideo'' @ js_String activeVideoIndex_in;
          activeVideo = getElementById w activeId;
          inactiveIndex = (if activeVideoIndex_in = 1 then 2 else 1);
          inactiveId = ''blinkVideo'' @ js_String inactiveIndex;
          inactiveVideo = getElementById w inactiveId
      in case pickLoop rnd (rng w) numVideos currentVideoIndex_in of
           None \<Rightarrow> None
         | Some (newVideoIndex, k) \<Rightarrow>
            (let w1 = w\<lparr>rng := k\<rparr>;
                 filename = video_filename newVideoIndex;
                 w2 = (if inactiveVideo \<noteq> None \<and> activeVideo \<noteq> None
                       then update_element inactiveId
                              (\<lambda>e. e\<lparr>onloadeddata := Some (SwapVisibility inactiveId activeId)\<rparr>)
                              (update_element inactiveId (\<lambda>e. e\<lparr>loads := Suc (loads e)\<rparr>)
                                 (update_element inactiveId (\<lambda>e. e\<lparr>src := filename\<rparr>) w1))
                       else w1)
             in Some
               (case (audioBuffer, audioContext, gainNode1, gainNode2) of
                  (Some b, True, Some g1, Some g2) \<Rightarrow>
                    (if audioAction = ''start'' then
                       (let (w3, source) = createBufferSource w2;
                            w4 = update_source source (\<lambda>n. n\<lparr>buffer := Some b\<rparr>) w3;
                            w5 = update_source source (\<lambda>n. n\<lparr>loop := True\<rparr>) w4;
                            w6 = update_source source (\<lambda>n. n\<lparr>loopStart := 0\<rparr>) w5;
                            w7 = update_source source (\<lambda>n. n\<lparr>loopEnd := duration b\<rparr>) w6;
                            w8 = update_source source (\<lambda>n. n\<lparr>connectedTo := ToGain g1\<rparr>) w7
                        in case source_start source (Num 0) w8 of
                             Inl e \<Rightarrow> Inl e
                           | Inr w9 \<Rightarrow>
                              (let w10 = setValueAtTime g1 1 (currentTime w9) w9;
                                   w11 = setValueAtTime g2 0 (currentTime w10) w10
                               in Inr (\<lparr>audioSource1 = Some source,
                                        audioSource2 = audioSource2_in,
                                        activeAudioIndex = 1, activeVideoIndex = inactiveIndex,
                                        currentVideoIndex = newVideoIndex\<rparr>, w11)))
                     else if audioAction = ''jump'' then
                       (let randomTime = rnd (rng w2) * duration b;
                            w3 = w2\<lparr>rng := Suc (rng w2)\<rparr>;
                            activeSource =
                              (if activeAudioIndex_in = 1 then audioSource1_in else audioSource2_in);
                            activeGain = (if activeAudioIndex_in = 1 then g1 else g2);
                            inactiveGain = (if activeAudioIndex_in = 1 then g2 else g1);
                            inactiveAudioIndex = (if activeAudioIndex_in = 1 then 2 else 1)
                        in case playAudioWithCrossfade w3 b activeSource activeGain inactiveGain
                                  randomTime default_crossfadeDuration of
                             Inl e \<Rightarrow> Inl e
                           | Inr (w4, newSource) \<Rightarrow>
                               Inr (\<lparr>audioSource1 =
                                       (if inactiveAudioIndex = 1 then Some newSource
                                        else audioSource1_in),
                                     audioSource2 =
                                       (if inactiveAudioIndex = 1 then audioSource2_in
                                        else Some newSource),
                                     activeAudioIndex = inactiveAudioIndex,
                                     activeVideoIndex = inactiveIndex,
                                     currentVideoIndex = newVideoIndex\<rparr>, w4))
                     else
                       Inr (\<lparr>audioSource1 = audioSource1_in, audioSource2 = audioSource2_in,
                             activeAudioIndex = activeAudioIndex_in,
                             activeVideoIndex = inactiveIndex,
                             currentVideoIndex = newVideoIndex\<rparr>, w2))
                | _ \<Rightarrow>
                    Inr (\<lparr>audioSource1 = audioSource1_in, audioSource2 = audioSource2_in,
                          activeAudioIndex = activeAudioIndex_in, activeVideoIndex = inactiveIndex,
                          currentVideoIndex = newVideoIndex\<rparr>, w2))))"

text \<open>The handler \<open>blink\<close> installed runs when the element \<open>i\<close> reports its data loaded:
  the loaded element plays and comes to the front, the other one is hidden.\<close>

definition fire_onloadeddata :: "string \<Rightarrow> world \<Rightarrow> world" where
  "fire_onloadeddata i w =
     (case getElementById w i of
        None \<Rightarrow> w
      | Some e \<Rightarrow>
          (case onloadeddata e of
             None \<Rightarrow> w
           | Some (SwapVisibility inactiveId activeId) \<Rightarrow>
               update_element activeId (\<lambda>e. e\<lparr>zIndex := ''1''\<rparr>)
                 (update_element activeId (\<lambda>e. e\<lparr>opacity := ''0''\<rparr>)
                    (update_element inactiveId (\<lambda>e. e\<lparr>zIndex := ''2''\<rparr>)
                       (update_element inactiveId (\<lambda>e. e\<lparr>opacity := ''1''\<rparr>)
                          (update_element inactiveId (\<lambda>e. e\<lparr>playing := True\<rparr>) w))))))"

section \<open>Notions the statements use\<close>

text \<open>The runtime fires pending timers one after the other, each named by its position in
  the queue at that moment; an error raised by a callback ends the run.\<close>

fun fire_timers :: "nat list \<Rightarrow> world \<Rightarrow> js_error + world" where
  "fire_timers [] w = Inr w"
| "fire_timers (k # ks) w =
     (case fire_timer k w of Inl e \<Rightarrow> Inl e | Inr w' \<Rightarrow> fire_timers ks w')"

text \<open>A source node bound to \<open>b\<close> that loops the whole buffer, is connected to \<open>c\<close> and
  plays from \<open>off\<close>.\<close>

definition started_node :: "audio_buffer \<Rightarrow> connection \<Rightarrow> jsnum \<Rightarrow> source_node" where
  "started_node b c off = \<lparr>buffer = Some b, loop = True, loopStart = 0, loopEnd = duration b,
     connectedTo = c, phase = Playing, startOffset = off\<rparr>"

text \<open>The node a call returned, read from the world it returned.\<close>

definition new_unit :: "world \<times> nat \<Rightarrow> source_node" where
  "new_unit r = sources (fst r) ! snd r"

text \<open>The position \<open>x\<close> taken modulo \<open>d\<close> in the mathematical sense, which for \<open>0 < d\<close>
  lies in \<open>[0, d)\<close>: what the specification calls the target position modulo the buffer
  duration.\<close>

definition real_mod :: "real \<Rightarrow> real \<Rightarrow> real" where
  "real_mod x d = x - d * of_int \<lfloor>x / d\<rfloor>"

text \<open>The error \<open>start(0, offset)\<close> raises for the offset alone, if any.\<close>

definition start_error :: "jsnum \<Rightarrow> js_error option" where
  "start_error off =
     (case off of NaN \<Rightarrow> Some TypeError | Num x \<Rightarrow> (if x < 0 then Some RangeError else None))"

text \<open>What a call of \<open>blink\<close> returned, if it returned; of that, the audio part, the
  visible-surface flag and the video index.\<close>

definition returned :: "(js_error + 'a) option \<Rightarrow> 'a option" where
  "returned r = (case r of Some (Inr x) \<Rightarrow> Some x | _ \<Rightarrow> None)"

definition audio_snapshot ::
  "(js_error + blink_result \<times> world) option \<Rightarrow> (nat option \<times> nat option \<times> int) option" where
  "audio_snapshot r =
     map_option (\<lambda>(res, w). (audioSource1 res, audioSource2 res, activeAudioIndex res))
       (returned r)"

definition video_flag :: "(js_error + blink_result \<times> world) option \<Rightarrow> int option" where
  "video_flag r = map_option (\<lambda>(res, w). activeVideoIndex res) (returned r)"

definition video_choice :: "(js_error + blink_result \<times> world) option \<Rightarrow> int option" where
  "video_choice r = map_option (\<lambda>(res, w). currentVideoIndex res) (returned r)"

section \<open>Concrete inputs\<close>

text \<open>A page with the two video elements and an audio context with two gain nodes and no
  source node yet; a buffer of ten seconds; random sequences.\<close>

definition blank_video :: video_element where
  "blank_video = \<lparr>src = [], loads = 0, playing = False, opacity = ''0'', zIndex = ''1'',
     onloadeddata = None\<rparr>"

definition silent_gain :: gain_node where
  "silent_gain = \<lparr>gain_value = 0, automation = []\<rparr>"

definition fresh_world :: world where
  "fresh_world = \<lparr>currentTime = 0, sources = [], gains = [silent_gain, silent_gain],
     timers = [], rng = 0,
     document = [(''blinkVideo1'', blank_video), (''blinkVideo2'', blank_video)]\<rparr>"

definition ten_seconds :: audio_buffer where
  "ten_seconds = \<lparr>duration = 10\<rparr>"

definition rnd_zero :: "nat \<Rightarrow> real" where
  "rnd_zero k = 0"


text \<open>The world after audio was started on source 1, and a page without video elements.\<close>

definition started_world :: world where
  "started_world = fresh_world\<lparr>sources := [started_node ten_seconds (ToGain 0) (Num 0)]\<rparr>"

definition no_page_world :: world where
  "no_page_world = fresh_world\<lparr>document := []\<rparr>"

text \<open>Two crossfades in a row on the started world, the second issued with the unit the
  first one returned as its active source, before any timer has fired.\<close>

definition two_crossfades :: "js_error + world \<times> nat" where
  "two_crossfades =
     (case playAudioWithCrossfade started_world ten_seconds (Some 0) 0 1 3
             default_crossfadeDuration of
        Inl e \<Rightarrow> Inl e
      | Inr (w1, n1) \<Rightarrow>
          playAudioWithCrossfade w1 ten_seconds (Some n1) 1 0 7 default_crossfadeDuration)"

text \<open>The timers \<open>ks\<close> fired on the world a call returned.\<close>

definition then_fire :: "nat list \<Rightarrow> js_error + world \<times> nat \<Rightarrow> js_error + world" where
  "then_fire ks r = (case r of Inl e \<Rightarrow> Inl e | Inr (w, n) \<Rightarrow> fire_timers ks w)"

section \<open>The catalogue of file names\<close>

lemma precacheLoop_eq:
  "precacheLoop i n acc = acc @ map video_filename [i..n - 1]"
proof (induction i n acc rule: precacheLoop.induct)
  case (1 i n acc)
  show ?case
  proof (cases "i < n")
    case True
    have "[i..n - 1] = i # [i + 1..n - 1]"
      using True by (simp add: upto_rec1)
    with True 1 show ?thesis
      by (subst precacheLoop.simps) simp
  next
    case False
    then show ?thesis
      by (subst precacheLoop.simps) simp
  qed
qed

text \<open>C7, as the claim states it, fails: \<open>precacheVideos\<close> has no rejecting path. For a
  count of zero and for a negative count the loop body never runs and the call returns the
  empty array.\<close>

theorem precacheVideos_zero_not_rejected:
  "precacheVideos 0 = Inr [] \<and> precacheVideos (- 2) = Inr []"
  by (simp add: precacheVideos_def precacheLoop.simps)

text \<open>C7, amended: \<open>precacheVideos\<close> never fails. For every count it returns the file names
  of the indices \<open>0, \<dots>, count - 1\<close> in this order (file number \<open>i + 1\<close> for index \<open>i\<close>), a
  sequence of exactly \<open>count\<close> entries for a positive count and the empty sequence for a
  count of zero or less. Being a function of the count alone, the result is deterministic.\<close>

theorem precacheVideos_returns_catalog:
  "precacheVideos count = Inr (map video_filename [0..count - 1]) \<and>
   length [0..count - 1] = nat count"
  by (simp add: precacheVideos_def precacheLoop_eq)

theorem precacheVideos_returns_catalog_witness:
  "precacheVideos 2 = Inr [''vid/001.mp4'', ''vid/002.mp4''] \<and> length [0..2 - 1] = nat 2"
  using precacheVideos_returns_catalog [of 2]
  by (simp add: video_filename_def padStart_def js_String_def upto_rec1 digits_of_nat.simps
        numeral_2_eq_2)

section \<open>The timing statistics\<close>

text \<open>C4, as the claim states it, fails: with \<open>lastTimestamp = 0\<close> the function does not
  return early. It goes on with a delta of zero, which the average absorbs: an average of
  10 becomes 9.\<close>

theorem updateTimeStats_sentinel_decays:
  "updateTimeStats 0 10 5 = Inr \<lparr>lastTimestamp = 5, avgDelta = 9\<rparr>"
  by (simp add: updateTimeStats_def)

text \<open>C4, amended: with \<open>lastTimestamp = 0\<close>, for every timestamp \<open>t\<close>, \<open>updateTimeStats\<close>
  sets \<open>lastTimestamp\<close> to \<open>t\<close> and returns, in place of \<open>avgDelta\<close>, the average updated
  with a delta of zero, \<open>0.9 \<times> avgDelta + 0.1 \<times> 0\<close>.\<close>

theorem updateTimeStats_sentinel:
  "updateTimeStats 0 a t = Inr \<lparr>lastTimestamp = t, avgDelta = 0.9 * a + 0.1 * 0\<rparr>"
  by (simp add: updateTimeStats_def)

theorem updateTimeStats_sentinel_witness:
  "updateTimeStats 0 20 16 = Inr \<lparr>lastTimestamp = 16, avgDelta = 18\<rparr>"
  using updateTimeStats_sentinel [of 20 16] by simp

text \<open>C8: with a \<open>lastTimestamp\<close> other than 0, for every timestamp \<open>t\<close>, also one equal to
  or earlier than \<open>lastTimestamp\<close>, \<open>updateTimeStats\<close> returns normally, with
  \<open>lastTimestamp = t\<close> and \<open>avgDelta = 0.9 \<times> avgDelta + 0.1 \<times> (t - lastTimestamp)\<close>.\<close>

theorem updateTimeStats_moving_average:
  "l \<noteq> 0 \<Longrightarrow>
   updateTimeStats l a t = Inr \<lparr>lastTimestamp = t, avgDelta = 0.9 * a + 0.1 * (t - l)\<rparr>"
  by (simp add: updateTimeStats_def Let_def)

theorem updateTimeStats_moving_average_witness:
  "(100 :: real) \<noteq> 0 \<and>
   updateTimeStats 100 20 90 = Inr \<lparr>lastTimestamp = 90, avgDelta = 17\<rparr>"
  using updateTimeStats_moving_average [of 100 20 90] by simp

section \<open>Reading the world after a call\<close>

lemma createBufferSource_fields [simp]:
  "snd (createBufferSource w) = length (sources w)"
  "sources (fst (createBufferSource w)) =
     sources w @ [\<lparr>buffer = None, loop = False, loopStart = 0, loopEnd = 0,
       connectedTo = Unconnected, phase = Created, startOffset = Num 0\<rparr>]"
  "gains (fst (createBufferSource w)) = gains w"
  "timers (fst (createBufferSource w)) = timers w"
  "currentTime (fst (createBufferSource w)) = currentTime w"
  "rng (fst (createBufferSource w)) = rng w"
  "document (fst (createBufferSource w)) = document w"
  by (simp_all add: createBufferSource_def)

lemma update_source_fields [simp]:
  "sources (update_source h f w) = (sources w)[h := f (sources w ! h)]"
  "gains (update_source h f w) = gains w"
  "timers (update_source h f w) = timers w"
  "currentTime (update_source h f w) = currentTime w"
  "rng (update_source h f w) = rng w"
  "document (update_source h f w) = document w"
  by (simp_all add: update_source_def)

lemma source_start_fresh:
  assumes "h < length (sources w)" and "phase (sources w ! h) = Created"
  shows "source_start h off w =
     (case start_error off of
        Some e \<Rightarrow> Inl e
      | None \<Rightarrow> Inr (update_source h (\<lambda>n. n\<lparr>phase := Playing, startOffset := off\<rparr>) w))"
  using assms by (simp add: source_start_def start_error_def split: jsnum.splits)

lemma setValueAtTime_fields [simp]:
  "sources (setValueAtTime g v t w) = sources w"
  "timers (setValueAtTime g v t w) = timers w"
  "currentTime (setValueAtTime g v t w) = currentTime w"
  "rng (setValueAtTime g v t w) = rng w"
  "document (setValueAtTime g v t w) = document w"
  by (simp_all add: setValueAtTime_def update_gain_def)

lemma linearRampToValueAtTime_fields [simp]:
  "sources (linearRampToValueAtTime g v t w) = sources w"
  "timers (linearRampToValueAtTime g v t w) = timers w"
  "currentTime (linearRampToValueAtTime g v t w) = currentTime w"
  "rng (linearRampToValueAtTime g v t w) = rng w"
  "document (linearRampToValueAtTime g v t w) = document w"
  by (simp_all add: linearRampToValueAtTime_def update_gain_def)

lemma setTimeout_fields [simp]:
  "sources (setTimeout x w) = sources w"
  "gains (setTimeout x w) = gains w"
  "timers (setTimeout x w) = timers w @ [x]"
  "currentTime (setTimeout x w) = currentTime w"
  "rng (setTimeout x w) = rng w"
  "document (setTimeout x w) = document w"
  by (simp_all add: setTimeout_def)

lemma update_element_fields [simp]:
  "sources (update_element i f w) = sources w"
  "gains (update_element i f w) = gains w"
  "timers (update_element i f w) = timers w"
  "currentTime (update_element i f w) = currentTime w"
  "rng (update_element i f w) = rng w"
  by (simp_all add: update_element_def)

lemma crossfade_raises:
  assumes "start_error (js_rem t (duration b)) = Some e"
  shows "playAudioWithCrossfade w b a ag ig t d = Inl e"
  using assms
  by (simp add: playAudioWithCrossfade_def Let_def split_def source_start_fresh)

lemma crossfade_returns:
  assumes "start_error (js_rem t (duration b)) = None"
  shows "\<exists>w'. playAudioWithCrossfade w b a ag ig t d = Inr (w', length (sources w)) \<and>
           sources w' = sources w @ [started_node b (ToGain ig) (js_rem t (duration b))] \<and>
           timers w' =
             timers w @ (case a of None \<Rightarrow> [] | Some h \<Rightarrow> [StopAfter (d * 1000 + 100) h]) \<and>
           rng w' = rng w \<and> document w' = document w \<and> currentTime w' = currentTime w"
  using assms
  by (simp add: playAudioWithCrossfade_def Let_def split_def source_start_fresh
        started_node_def split: option.splits)

lemma crossfade_Inr:
  assumes "playAudioWithCrossfade w b a ag ig t d = Inr (w', n)"
  shows "start_error (js_rem t (duration b)) = None"
    and "n = length (sources w)"
    and "sources w' = sources w @ [started_node b (ToGain ig) (js_rem t (duration b))]"
    and "timers w' =
           timers w @ (case a of None \<Rightarrow> [] | Some h \<Rightarrow> [StopAfter (d * 1000 + 100) h])"
    and "rng w' = rng w"
proof -
  show ok: "start_error (js_rem t (duration b)) = None"
  proof (cases "start_error (js_rem t (duration b))")
    case None
    then show ?thesis .
  next
    case (Some e)
    from crossfade_raises [OF this, of w a ag ig d] assms show ?thesis
      by simp
  qed
  from crossfade_returns [OF ok, of w a ag ig d] assms
  show "n = length (sources w)"
    and "sources w' = sources w @ [started_node b (ToGain ig) (js_rem t (duration b))]"
    and "timers w' =
           timers w @ (case a of None \<Rightarrow> [] | Some h \<Rightarrow> [StopAfter (d * 1000 + 100) h])"
    and "rng w' = rng w"
    by auto
qed

section \<open>The crossfade and its teardown\<close>

lemma timer_callback_eq:
  "timer_callback (StopAfter d h) w =
     Inr (if is_live w h then update_source h (\<lambda>n. n\<lparr>phase := Stopped\<rparr>) w else w)"
  by (simp add: timer_callback_def source_stop_def is_live_def)

lemma is_live_after_stop:
  "is_live (if is_live w h then update_source h (\<lambda>n. n\<lparr>phase := Stopped\<rparr>) w else w) x =
     (x \<noteq> h \<and> is_live w x)"
  by (auto simp: is_live_def nth_list_update)

lemma fire_timer_stop:
  assumes "k < length (timers w)" and "timers w ! k = StopAfter d h"
  shows "\<exists>w'. fire_timer k w = Inr w' \<and>
           timers w' = take k (timers w) @ drop (Suc k) (timers w) \<and>
           (\<forall>x. is_live w' x = (x \<noteq> h \<and> is_live w x))"
proof -
  let ?w0 = "w\<lparr>timers := take k (timers w) @ drop (Suc k) (timers w)\<rparr>"
  let ?w' = "if is_live ?w0 h then update_source h (\<lambda>n. n\<lparr>phase := Stopped\<rparr>) ?w0 else ?w0"
  have "fire_timer k w = Inr ?w'"
    using assms by (simp add: fire_timer_def timer_callback_eq)
  moreover have "timers ?w' = take k (timers w) @ drop (Suc k) (timers w)"
    by simp
  moreover have "\<forall>x. is_live ?w' x = (x \<noteq> h \<and> is_live w x)"
    unfolding is_live_after_stop by (simp add: is_live_def)
  ultimately show ?thesis by blast
qed

lemma crossfade_live:
  assumes "playAudioWithCrossfade w b a ag ig t d = Inr (w', n)"
  shows "is_live w' x = (x = length (sources w) \<or> is_live w x)"
  by (auto simp: is_live_def crossfade_Inr(3) [OF assms] nth_append started_node_def)

lemma crossfade_twice_shape:
  assumes c1: "playAudioWithCrossfade w b a g1 g2 t1 d1 = Inr (w1, n1)"
    and c2: "playAudioWithCrossfade w1 b (Some n1) g2 g1 t2 d2 = Inr (w2, n2)"
  shows "n1 = length (sources w)" and "n2 = Suc (length (sources w))"
    and "timers w2 =
           timers w @ (case a of None \<Rightarrow> [] | Some h \<Rightarrow> [StopAfter (d1 * 1000 + 100) h]) @
           [StopAfter (d2 * 1000 + 100) n1]"
    and "\<And>x. is_live w2 x = (x = n2 \<or> x = n1 \<or> is_live w x)"
proof -
  show n1: "n1 = length (sources w)"
    by (rule crossfade_Inr(2) [OF c1])
  have len1: "length (sources w1) = Suc (length (sources w))"
    by (simp add: crossfade_Inr(3) [OF c1])
  show n2: "n2 = Suc (length (sources w))"
    using crossfade_Inr(2) [OF c2] len1 by simp
  show "timers w2 =
           timers w @ (case a of None \<Rightarrow> [] | Some h \<Rightarrow> [StopAfter (d1 * 1000 + 100) h]) @
           [StopAfter (d2 * 1000 + 100) n1]"
    by (simp add: crossfade_Inr(4) [OF c2] crossfade_Inr(4) [OF c1])
  show "is_live w2 x = (x = n2 \<or> x = n1 \<or> is_live w x)" for x
    unfolding crossfade_live [OF c2] crossfade_live [OF c1]
    using n1 n2 len1 by auto
qed

text \<open>C1: two calls of \<open>playAudioWithCrossfade\<close> that return, the second issued before any
  timer of the first has fired and, as \<open>blink\<close> threads it, with the unit the first call
  returned as its active source. The timers the two calls leave pending are exactly one per call, each
  holding the unit that was the active source of its own call; neither holds the unit of the
  second call. Firing the timer of the first call alone stops only the unit that was active
  before the first call and leaves both newer units playing. After both timers have fired, in
  either order, no callback has raised, the queue is as it was before the calls, and the
  playing units are the unit of the second call and whatever played before other than the
  first active source: of the units the two calls handled, exactly one is live. Stopping a
  unit that is not playing leaves the world as it is, and no timer callback ever raises.\<close>

theorem crossfade_twice_teardown:
  assumes a_valid: "\<forall>h. a = Some h \<longrightarrow> h < length (sources w)"
    and c1: "playAudioWithCrossfade w b a g1 g2 t1 d1 = Inr (w1, n1)"
    and c2: "playAudioWithCrossfade w1 b (Some n1) g2 g1 t2 d2 = Inr (w2, n2)"
  shows
    "drop (length (timers w)) (timers w2) =
       (case a of None \<Rightarrow> [] | Some h \<Rightarrow> [StopAfter (d1 * 1000 + 100) h]) @
       [StopAfter (d2 * 1000 + 100) n1] \<and>
     n1 \<noteq> n2 \<and> a \<noteq> Some n1 \<and> a \<noteq> Some n2 \<and> is_live w2 n1 \<and> is_live w2 n2 \<and>
     (\<forall>h. a = Some h \<longrightarrow>
        (\<exists>w'. fire_timer (length (timers w)) w2 = Inr w' \<and>
           \<not> is_live w' h \<and> is_live w' n1 \<and> is_live w' n2)) \<and>
     (\<forall>order \<in> (case a of
                    None \<Rightarrow> {[length (timers w)]}
                  | Some h \<Rightarrow> {[length (timers w), length (timers w)],
                               [Suc (length (timers w)), length (timers w)]}).
        \<exists>w3. fire_timers order w2 = Inr w3 \<and> timers w3 = timers w \<and>
          is_live w3 n2 \<and> \<not> is_live w3 n1 \<and> (\<forall>h. a = Some h \<longrightarrow> \<not> is_live w3 h) \<and>
          (\<forall>x. is_live w3 x = (x = n2 \<or> (is_live w x \<and> a \<noteq> Some x)))) \<and>
     (\<forall>d h w'. \<not> is_live w' h \<longrightarrow> timer_callback (StopAfter d h) w' = Inr w') \<and>
     (\<forall>t w'. \<exists>w''. timer_callback t w' = Inr w'')"
proof -
  let ?p = "length (timers w)"
  note shape = crossfade_twice_shape [OF c1 c2]
  have fresh: "n1 \<noteq> n2" "a \<noteq> Some n1" "a \<noteq> Some n2"
    using shape(1,2) a_valid by auto
  have dead1: "\<not> is_live w n1" and dead2: "\<not> is_live w n2"
    using shape(1,2) by (simp_all add: is_live_def)
  have pending: "drop ?p (timers w2) =
       (case a of None \<Rightarrow> [] | Some h \<Rightarrow> [StopAfter (d1 * 1000 + 100) h]) @
       [StopAfter (d2 * 1000 + 100) n1]"
    by (simp add: shape(3))
  have live2: "is_live w2 n1" "is_live w2 n2"
    by (simp_all add: shape(4))
  have first_only: "\<exists>w'. fire_timer ?p w2 = Inr w' \<and> \<not> is_live w' h \<and> is_live w' n1 \<and> is_live w' n2"
    if "a = Some h" for h
  proof -
    have "?p < length (timers w2)" "timers w2 ! ?p = StopAfter (d1 * 1000 + 100) h"
      using that by (simp_all add: shape(3) nth_append)
    from fire_timer_stop [OF this] obtain w' where
      "fire_timer ?p w2 = Inr w'" "\<forall>x. is_live w' x = (x \<noteq> h \<and> is_live w2 x)"
      by blast
    with live2 fresh that show ?thesis by auto
  qed
  have all_fired: "\<exists>w3. fire_timers order w2 = Inr w3 \<and> timers w3 = timers w \<and>
          (\<forall>x. is_live w3 x = (x = n2 \<or> (is_live w x \<and> a \<noteq> Some x)))"
    if "order \<in> (case a of None \<Rightarrow> {[?p]} | Some h \<Rightarrow> {[?p, ?p], [Suc ?p, ?p]})" for order
  proof (cases a)
    case None
    then have order: "order = [?p]" using that by simp
    have "?p < length (timers w2)" "timers w2 ! ?p = StopAfter (d2 * 1000 + 100) n1"
      using None by (simp_all add: shape(3) nth_append)
    from fire_timer_stop [OF this] obtain w3 where
      "fire_timer ?p w2 = Inr w3" "timers w3 = take ?p (timers w2) @ drop (Suc ?p) (timers w2)"
      "\<forall>x. is_live w3 x = (x \<noteq> n1 \<and> is_live w2 x)"
      by blast
    then show ?thesis
      using None order fresh dead1 by (auto simp: shape(3,4))
  next
    case (Some h)
    let ?A = "StopAfter (d1 * 1000 + 100) h" and ?B = "StopAfter (d2 * 1000 + 100) n1"
    have tm: "timers w2 = timers w @ [?A, ?B]"
      using Some by (simp add: shape(3))
    from that Some consider "order = [?p, ?p]" | "order = [Suc ?p, ?p]" by auto
    then show ?thesis
    proof cases
      case 1
      have "?p < length (timers w2)" "timers w2 ! ?p = ?A"
        by (simp_all add: tm nth_append)
      from fire_timer_stop [OF this] obtain w' where w':
        "fire_timer ?p w2 = Inr w'" "timers w' = timers w @ [?B]"
        "\<forall>x. is_live w' x = (x \<noteq> h \<and> is_live w2 x)"
        by (auto simp: tm)
      have "?p < length (timers w')" "timers w' ! ?p = ?B"
        by (simp_all add: w'(2) nth_append)
      from fire_timer_stop [OF this] obtain w3 where w3:
        "fire_timer ?p w' = Inr w3" "timers w3 = timers w"
        "\<forall>x. is_live w3 x = (x \<noteq> n1 \<and> is_live w' x)"
        by (auto simp: w'(2))
      have "fire_timers order w2 = Inr w3"
        using 1 w'(1) w3(1) by simp
      moreover have "\<forall>x. is_live w3 x = (x = n2 \<or> (is_live w x \<and> a \<noteq> Some x))"
        using w3(3) w'(3) Some fresh dead1 dead2 by (auto simp: shape(4))
      ultimately show ?thesis using w3(2) by blast
    next
      case 2
      have "Suc ?p < length (timers w2)" "timers w2 ! Suc ?p = ?B"
        by (simp_all add: tm nth_append)
      from fire_timer_stop [OF this] obtain w' where w':
        "fire_timer (Suc ?p) w2 = Inr w'" "timers w' = timers w @ [?A]"
        "\<forall>x. is_live w' x = (x \<noteq> n1 \<and> is_live w2 x)"
        by (auto simp: tm)
      have "?p < length (timers w')" "timers w' ! ?p = ?A"
        by (simp_all add: w'(2) nth_append)
      from fire_timer_stop [OF this] obtain w3 where w3:
        "fire_timer ?p w' = Inr w3" "timers w3 = timers w"
        "\<forall>x. is_live w3 x = (x \<noteq> h \<and> is_live w' x)"
        by (auto simp: w'(2))
      have "fire_timers order w2 = Inr w3"
        using 2 w'(1) w3(1) by simp
      moreover have "\<forall>x. is_live w3 x = (x = n2 \<or> (is_live w x \<and> a \<noteq> Some x))"
        using w3(3) w'(3) Some fresh dead1 dead2 by (auto simp: shape(4))
      ultimately show ?thesis using w3(2) by blast
    qed
  qed
  have all_fired_units: "\<exists>w3. fire_timers order w2 = Inr w3 \<and> timers w3 = timers w \<and>
          is_live w3 n2 \<and> \<not> is_live w3 n1 \<and> (\<forall>h. a = Some h \<longrightarrow> \<not> is_live w3 h) \<and>
          (\<forall>x. is_live w3 x = (x = n2 \<or> (is_live w x \<and> a \<noteq> Some x)))"
    if "order \<in> (case a of None \<Rightarrow> {[?p]} | Some h \<Rightarrow> {[?p, ?p], [Suc ?p, ?p]})" for order
  proof -
    from all_fired [OF that] obtain w3 where w3:
      "fire_timers order w2 = Inr w3" "timers w3 = timers w"
      "\<forall>x. is_live w3 x = (x = n2 \<or> (is_live w x \<and> a \<noteq> Some x))"
      by blast
    from w3(3) fresh dead1 have "is_live w3 n2" "\<not> is_live w3 n1"
      "\<forall>h. a = Some h \<longrightarrow> \<not> is_live w3 h"
      by auto
    with w3 show ?thesis
      by blast
  qed
  have noop: "timer_callback (StopAfter d h) w' = Inr w'" if "\<not> is_live w' h" for d h w'
    using that by (simp add: timer_callback_eq)
  have never: "\<exists>w''. timer_callback t w' = Inr w''" for t w'
    by (cases t) (simp add: timer_callback_eq)
  show ?thesis
    using pending fresh live2 first_only all_fired_units noop never by blast
qed

theorem crossfade_twice_teardown_witness:
  "0 < length (sources started_world) \<and>
   (case then_fire [0, 0] two_crossfades of
      Inl e \<Rightarrow> False
    | Inr w3 \<Rightarrow> is_live w3 2 \<and> \<not> is_live w3 1 \<and> \<not> is_live w3 0 \<and> timers w3 = [])"
proof -
  let ?d = default_crossfadeDuration
  have valid: "\<forall>h. Some (0 :: nat) = Some h \<longrightarrow> h < length (sources started_world)"
    by (simp add: started_world_def)
  have "start_error (js_rem 3 (duration ten_seconds)) = None"
    by (simp add: start_error_def js_rem_def js_trunc_def ten_seconds_def)
  from crossfade_returns [OF this, of started_world "Some 0" 0 1 ?d]
  obtain w1 where c1:
    "playAudioWithCrossfade started_world ten_seconds (Some 0) 0 1 3 ?d = Inr (w1, 1)"
    by (auto simp: started_world_def)
  have len1: "length (sources w1) = 2"
    by (simp add: crossfade_Inr(3) [OF c1] started_world_def)
  have "start_error (js_rem 7 (duration ten_seconds)) = None"
    by (simp add: start_error_def js_rem_def js_trunc_def ten_seconds_def)
  from crossfade_returns [OF this, of w1 "Some 1" 1 0 ?d] len1
  obtain w2 where c2: "playAudioWithCrossfade w1 ten_seconds (Some 1) 1 0 7 ?d = Inr (w2, 2)"
    by auto
  have two: "two_crossfades = Inr (w2, 2)"
    by (simp only: two_crossfades_def c1 c2 sum.case prod.case)
  have tm: "timers started_world = []"
    by (simp add: started_world_def fresh_world_def)
  let ?p = "length (timers started_world)"
  from crossfade_twice_teardown [OF valid c1 c2]
  have every: "\<forall>order \<in> (case Some (0 :: nat) of
                    None \<Rightarrow> {[?p]}
                  | Some h \<Rightarrow> {[?p, ?p], [Suc ?p, ?p]}).
        \<exists>w3. fire_timers order w2 = Inr w3 \<and>
          timers w3 = timers started_world \<and>
          is_live w3 2 \<and> \<not> is_live w3 1 \<and>
          (\<forall>h. Some (0 :: nat) = Some h \<longrightarrow> \<not> is_live w3 h) \<and>
          (\<forall>x. is_live w3 x =
             (x = 2 \<or> (is_live started_world x \<and> Some 0 \<noteq> Some x)))"
    by (elim conjE)
  have "[?p, ?p] \<in> (case Some (0 :: nat) of
                    None \<Rightarrow> {[?p]}
                  | Some h \<Rightarrow> {[?p, ?p], [Suc ?p, ?p]})"
    by simp
  with every obtain w3 where "fire_timers [?p, ?p] w2 = Inr w3"
    "timers w3 = timers started_world" "is_live w3 2"
    "\<not> is_live w3 1" "\<forall>h. Some (0 :: nat) = Some h \<longrightarrow> \<not> is_live w3 h"
    by blast
  then have "then_fire [0, 0] two_crossfades = Inr w3" "timers w3 = []"
    "is_live w3 2" "\<not> is_live w3 1" "\<not> is_live w3 0"
    unfolding tm two then_fire_def by simp_all
  moreover have "0 < length (sources started_world)"
    by (simp add: started_world_def)
  ultimately show ?thesis
    by simp
qed

section \<open>The selection loop\<close>

lemma pickLoop_first_accept:
  assumes "\<forall>j<m. Some \<lfloor>rnd (k + j) * of_int N\<rfloor> = cur \<and> 1 < N"
    and "\<not> (Some \<lfloor>rnd (k + m) * of_int N\<rfloor> = cur \<and> 1 < N)"
  shows "pickLoop rnd k N cur = Some (\<lfloor>rnd (k + m) * of_int N\<rfloor>, Suc (k + m))"
  using assms
proof (induction m arbitrary: k)
  case 0
  then show ?case
    by (subst pickLoop.simps) auto
next
  case (Suc m)
  from Suc.prems(1) have here: "Some \<lfloor>rnd k * of_int N\<rfloor> = cur \<and> 1 < N"
    by (metis add.right_neutral zero_less_Suc)
  have "\<forall>j<m. Some \<lfloor>rnd (Suc k + j) * of_int N\<rfloor> = cur \<and> 1 < N"
    using Suc.prems(1) by (metis Suc_less_eq add_Suc_shift)
  moreover have "\<not> (Some \<lfloor>rnd (Suc k + m) * of_int N\<rfloor> = cur \<and> 1 < N)"
    using Suc.prems(2) by simp
  ultimately have
    "pickLoop rnd (Suc k) N cur = Some (\<lfloor>rnd (Suc k + m) * of_int N\<rfloor>, Suc (Suc k + m))"
    by (rule Suc.IH)
  with here show ?case
    by (subst pickLoop.simps) simp
qed

lemma pickLoop_result:
  assumes "pickLoop rnd k N cur = Some (v, k')"
  shows "\<exists>m. k' = Suc (k + m) \<and> v = \<lfloor>rnd (k + m) * of_int N\<rfloor> \<and>
             \<not> (Some v = cur \<and> 1 < N) \<and>
             (\<forall>j<m. Some \<lfloor>rnd (k + j) * of_int N\<rfloor> = cur \<and> 1 < N)"
proof -
  have "\<exists>m. snd y = Suc (k + m) \<and> fst y = \<lfloor>rnd (k + m) * of_int N\<rfloor> \<and>
             \<not> (Some (fst y) = cur \<and> 1 < N) \<and>
             (\<forall>j<m. Some \<lfloor>rnd (k + j) * of_int N\<rfloor> = cur \<and> 1 < N)"
    if "pickLoop rnd k N cur = Some y" for y
  proof (rule pickLoop.raw_induct [OF _ that], goal_cases)
    case (1 f rnd k N cur y)
    show ?case
    proof (cases "Some \<lfloor>rnd k * of_int N\<rfloor> = cur \<and> 1 < N")
      case True
      with 1(2) have "f rnd (Suc k) N cur = Some y"
        by simp
      from 1(1) [OF this] obtain m where m:
        "snd y = Suc (Suc k + m)" "fst y = \<lfloor>rnd (Suc k + m) * of_int N\<rfloor>"
        "\<not> (Some (fst y) = cur \<and> 1 < N)"
        "\<forall>j<m. Some \<lfloor>rnd (Suc k + j) * of_int N\<rfloor> = cur \<and> 1 < N"
        by blast
      have "\<forall>j<Suc m. Some \<lfloor>rnd (k + j) * of_int N\<rfloor> = cur \<and> 1 < N"
      proof (intro allI impI)
        fix j
        assume "j < Suc m"
        show "Some \<lfloor>rnd (k + j) * of_int N\<rfloor> = cur \<and> 1 < N"
        proof (cases j)
          case 0
          with True show ?thesis by simp
        next
          case (Suc i)
          with \<open>j < Suc m\<close> have "i < m" by simp
          with m(4) Suc show ?thesis by simp
        qed
      qed
      with m(1-3) show ?thesis
        by (intro exI [of _ "Suc m"]) simp
    next
      case False
      with 1(2) have "y = (\<lfloor>rnd k * of_int N\<rfloor>, Suc k)"
        by auto
      with False show ?thesis
        by (intro exI [of _ 0]) simp
    qed
  qed
  from this [OF assms] show ?thesis
    by simp
qed

lemma pickLoop_returns:
  assumes "\<exists>m. \<not> (Some \<lfloor>rnd (k + m) * of_int N\<rfloor> = cur \<and> 1 < N)"
  shows "pickLoop rnd k N cur \<noteq> None"
proof -
  define m where "m = (LEAST m. \<not> (Some \<lfloor>rnd (k + m) * of_int N\<rfloor> = cur \<and> 1 < N))"
  have "\<not> (Some \<lfloor>rnd (k + m) * of_int N\<rfloor> = cur \<and> 1 < N)"
    unfolding m_def using assms by (rule LeastI_ex)
  moreover have "\<forall>j<m. Some \<lfloor>rnd (k + j) * of_int N\<rfloor> = cur \<and> 1 < N"
    unfolding m_def using not_less_Least by blast
  ultimately show ?thesis
    using pickLoop_first_accept [of m rnd k N cur] by simp
qed

lemma index_in_range:
  assumes "0 \<le> r" and "r < 1" and "0 < N"
  shows "0 \<le> \<lfloor>r * of_int N\<rfloor>" and "\<lfloor>r * of_int N\<rfloor> < N"
proof -
  show "0 \<le> \<lfloor>r * of_int N\<rfloor>"
    using assms by simp
  have "r * of_int N < 1 * of_int N"
    using assms by (intro mult_strict_right_mono) simp_all
  then show "\<lfloor>r * of_int N\<rfloor> < N"
    by (simp add: floor_less_iff)
qed

lemma pickLoop_rnd_zero:
  "cur \<noteq> Some 0 \<Longrightarrow> pickLoop rnd_zero k N cur = Some (0, Suc k)"
  by (subst pickLoop.simps) (auto simp: rnd_zero_def)

lemma pickLoop_one_draw:
  assumes "Some \<lfloor>rnd k * of_int N\<rfloor> \<noteq> cur \<or> N \<le> 1"
  shows "pickLoop rnd k N cur = Some (\<lfloor>rnd k * of_int N\<rfloor>, Suc k)"
  using assms pickLoop_first_accept [of 0 rnd k N cur] by auto



section \<open>Offsets the audio primitive accepts\<close>

lemma js_rem_nonneg:
  assumes "0 \<le> t" and "0 < d"
  shows "js_rem t d = Num (real_mod t d)"
  using assms by (simp add: js_rem_def js_trunc_def real_mod_def)

lemma real_mod_range:
  assumes "0 < d"
  shows "0 \<le> real_mod t d" and "real_mod t d < d"
proof -
  have eq: "real_mod t d = d * frac (t / d)"
    using assms by (simp add: real_mod_def frac_def algebra_simps)
  show "0 \<le> real_mod t d"
    unfolding eq using assms by simp
  have "d * frac (t / d) < d * 1"
    using assms by (intro mult_strict_left_mono frac_lt_1)
  then show "real_mod t d < d"
    unfolding eq by simp
qed

lemma nonneg_offset_accepted:
  assumes "0 \<le> t" and "0 < d"
  shows "start_error (js_rem t d) = None"
  using real_mod_range(1) [OF assms(2), of t]
  by (simp add: js_rem_nonneg [OF assms] start_error_def)

lemma random_offset_accepted:
  assumes "0 \<le> r" and "0 < d"
  shows "start_error (js_rem (r * d) d) = None"
  using assms by (intro nonneg_offset_accepted) simp_all

section \<open>The trigger\<close>

lemma blink_none:
  "(blink rnd w bc N ab ac s1 s2 g1 g2 aai avi act cur = None) =
   (pickLoop rnd (rng w) N cur = None)"
  by (simp add: blink_def Let_def split: option.splits prod.splits)

lemma blink_no_audio_action:
  assumes "pickLoop rnd (rng w) N cur = Some (v, k)"
    and "(act \<noteq> ''start'' \<and> act \<noteq> ''jump'') \<or>
         \<not> (\<exists>b p q. ab = Some b \<and> ac \<and> g1 = Some p \<and> g2 = Some q)"
  shows "\<exists>w'. blink rnd w bc N ab ac s1 s2 g1 g2 aai avi act cur =
       Some (Inr (\<lparr>audioSource1 = s1, audioSource2 = s2, activeAudioIndex = aai,
              activeVideoIndex = (if avi = 1 then 2 else 1), currentVideoIndex = v\<rparr>, w')) \<and>
       sources w' = sources w \<and> gains w' = gains w \<and> timers w' = timers w \<and>
       currentTime w' = currentTime w \<and> rng w' = k"
  using assms
  by (auto simp: blink_def Let_def split: option.splits bool.splits)

lemma blink_start:
  assumes "pickLoop rnd (rng w) N cur = Some (v, k)"
  shows "\<exists>w'. blink rnd w bc N (Some b) True s1 s2 (Some g1) (Some g2) aai avi ''start'' cur =
       Some (Inr (\<lparr>audioSource1 = Some (length (sources w)), audioSource2 = s2,
              activeAudioIndex = 1, activeVideoIndex = (if avi = 1 then 2 else 1),
              currentVideoIndex = v\<rparr>, w')) \<and>
       sources w' = sources w @ [started_node b (ToGain g1) (Num 0)] \<and> timers w' = timers w"
  using assms
  by (simp add: blink_def Let_def split_def started_node_def source_start_fresh
        start_error_def)

lemma blink_jump_unfold:
  assumes "blink rnd w bc N (Some b) True s1 s2 (Some g1) (Some g2) aai avi ''none'' cur =
             Some (Inr (r0, w2))"
  shows "blink rnd w bc N (Some b) True s1 s2 (Some g1) (Some g2) aai avi ''jump'' cur =
     Some (case playAudioWithCrossfade (w2\<lparr>rng := Suc (rng w2)\<rparr>) b
                  (if aai = 1 then s1 else s2) (if aai = 1 then g1 else g2)
                  (if aai = 1 then g2 else g1) (rnd (rng w2) * duration b)
                  default_crossfadeDuration of
             Inl e \<Rightarrow> Inl e
           | Inr (w4, ns) \<Rightarrow>
               Inr (\<lparr>audioSource1 = (if aai = 1 then s1 else Some ns),
                      audioSource2 = (if aai = 1 then Some ns else s2),
                      activeAudioIndex = (if aai = 1 then 2 else 1),
                      activeVideoIndex = activeVideoIndex r0,
                      currentVideoIndex = currentVideoIndex r0\<rparr>, w4))"
proof -
  obtain v k where pick: "pickLoop rnd (rng w) N cur = Some (v, k)"
    using assms blink_none [of rnd w bc N "Some b" True s1 s2 "Some g1" "Some g2" aai avi
        "''none''" cur]
    by (cases "pickLoop rnd (rng w) N cur") auto
  from assms pick show ?thesis
    by (cases "aai = 1")
      (clarsimp simp: blink_def Let_def cong: sum.case_cong prod.case_cong)+
qed

lemma blink_jump_raises:
  assumes "pickLoop rnd (rng w) N cur = Some (v, k)"
    and "start_error (js_rem (rnd k * duration b) (duration b)) = Some e"
  shows "blink rnd w bc N (Some b) True s1 s2 (Some g1) (Some g2) aai avi ''jump'' cur =
           Some (Inl e)"
proof -
  from blink_no_audio_action [OF assms(1), of "''none''" "Some b" True "Some g1" "Some g2" bc
      s1 s2 aai avi]
  obtain w2 where none:
    "blink rnd w bc N (Some b) True s1 s2 (Some g1) (Some g2) aai avi ''none'' cur =
       Some (Inr (\<lparr>audioSource1 = s1, audioSource2 = s2, activeAudioIndex = aai,
              activeVideoIndex = (if avi = 1 then 2 else 1), currentVideoIndex = v\<rparr>, w2))"
    and k: "rng w2 = k"
    by auto
  from assms(2) have "start_error (js_rem (rnd (rng w2) * duration b) (duration b)) = Some e"
    by (simp add: k)
  from crossfade_raises [OF this] show ?thesis
    unfolding blink_jump_unfold [OF none] by simp
qed

lemma blink_jump:
  assumes "pickLoop rnd (rng w) N cur = Some (v, k)"
    and "start_error (js_rem (rnd k * duration b) (duration b)) = None"
  shows "\<exists>w'. blink rnd w bc N (Some b) True s1 s2 (Some g1) (Some g2) aai avi ''jump'' cur =
       Some (Inr (\<lparr>audioSource1 = (if aai = 1 then s1 else Some (length (sources w))),
              audioSource2 = (if aai = 1 then Some (length (sources w)) else s2),
              activeAudioIndex = (if aai = 1 then 2 else 1),
              activeVideoIndex = (if avi = 1 then 2 else 1), currentVideoIndex = v\<rparr>, w')) \<and>
       sources w' = sources w @
         [started_node b (ToGain (if aai = 1 then g2 else g1))
            (js_rem (rnd k * duration b) (duration b))] \<and>
       timers w' = timers w @
         (case (if aai = 1 then s1 else s2) of
            None \<Rightarrow> []
          | Some a \<Rightarrow> [StopAfter (default_crossfadeDuration * 1000 + 100) a])"
proof -
  from blink_no_audio_action [OF assms(1), of "''none''" "Some b" True "Some g1" "Some g2" bc
      s1 s2 aai avi]
  obtain w2 where none:
    "blink rnd w bc N (Some b) True s1 s2 (Some g1) (Some g2) aai avi ''none'' cur =
       Some (Inr (\<lparr>audioSource1 = s1, audioSource2 = s2, activeAudioIndex = aai,
              activeVideoIndex = (if avi = 1 then 2 else 1), currentVideoIndex = v\<rparr>, w2))"
    and frame: "sources w2 = sources w" "timers w2 = timers w"
    and k: "rng w2 = k"
    by auto
  from assms(2) have "start_error (js_rem (rnd (rng w2) * duration b) (duration b)) = None"
    by (simp add: k)
  from crossfade_returns [OF this, of "w2\<lparr>rng := Suc (rng w2)\<rparr>"
      "if aai = 1 then s1 else s2" "if aai = 1 then g1 else g2" "if aai = 1 then g2 else g1"
      default_crossfadeDuration]
  obtain w4 where
    "playAudioWithCrossfade (w2\<lparr>rng := Suc (rng w2)\<rparr>) b (if aai = 1 then s1 else s2)
       (if aai = 1 then g1 else g2) (if aai = 1 then g2 else g1) (rnd (rng w2) * duration b)
       default_crossfadeDuration = Inr (w4, length (sources w))"
    "sources w4 = sources w @
       [started_node b (ToGain (if aai = 1 then g2 else g1))
          (js_rem (rnd k * duration b) (duration b))]"
    "timers w4 = timers w @
       (case (if aai = 1 then s1 else s2) of
          None \<Rightarrow> []
        | Some a \<Rightarrow> [StopAfter (default_crossfadeDuration * 1000 + 100) a])"
    by (auto simp: frame k)
  then show ?thesis
    unfolding blink_jump_unfold [OF none] by simp
qed

lemma blink_video:
  assumes "blink rnd w bc N ab ac s1 s2 g1 g2 aai avi act cur = Some (Inr (res, w'))"
  shows "\<exists>k. pickLoop rnd (rng w) N cur = Some (currentVideoIndex res, k)"
    and "activeVideoIndex res = (if avi = 1 then 2 else 1)"
proof -
  obtain v k where pick: "pickLoop rnd (rng w) N cur = Some (v, k)"
    using assms blink_none [of rnd w bc N ab ac s1 s2 g1 g2 aai avi act cur]
    by (cases "pickLoop rnd (rng w) N cur") auto
  have "currentVideoIndex res = v \<and> activeVideoIndex res = (if avi = 1 then 2 else 1)"
  proof (cases "(act \<noteq> ''start'' \<and> act \<noteq> ''jump'') \<or>
         \<not> (\<exists>b p q. ab = Some b \<and> ac \<and> g1 = Some p \<and> g2 = Some q)")
    case True
    from blink_no_audio_action [OF pick True, of bc s1 s2 aai avi] assms show ?thesis
      by auto
  next
    case False
    then obtain b p q where guard: "ab = Some b" "ac" "g1 = Some p" "g2 = Some q"
      and "act = ''start'' \<or> act = ''jump''"
      by blast
    then show ?thesis
    proof (elim disjE)
      assume "act = ''start''"
      with blink_start [OF pick, of bc b s1 s2 p q aai avi] assms guard show ?thesis
        by auto
    next
      assume jump: "act = ''jump''"
      show ?thesis
      proof (cases "start_error (js_rem (rnd k * duration b) (duration b))")
        case None
        from blink_jump [OF pick None, of bc s1 s2 p q aai avi] assms guard jump
        show ?thesis
          by auto
      next
        case (Some e)
        from blink_jump_raises [OF pick Some, of bc s1 s2 p q aai avi] assms guard jump
        show ?thesis
          by simp
      qed
    qed
  qed
  with pick show "\<exists>k. pickLoop rnd (rng w) N cur = Some (currentVideoIndex res, k)"
    and "activeVideoIndex res = (if avi = 1 then 2 else 1)"
    by simp_all
qed

lemma blink_returns:
  assumes "pickLoop rnd (rng w) N cur = Some (v, k)"
    and "act = ''jump'' \<longrightarrow> 0 \<le> rnd k \<and> (\<forall>b. ab = Some b \<longrightarrow> 0 < duration b)"
  shows "\<exists>res w'. blink rnd w bc N ab ac s1 s2 g1 g2 aai avi act cur = Some (Inr (res, w'))"
proof (cases "(act \<noteq> ''start'' \<and> act \<noteq> ''jump'') \<or>
         \<not> (\<exists>b p q. ab = Some b \<and> ac \<and> g1 = Some p \<and> g2 = Some q)")
  case True
  from blink_no_audio_action [OF assms(1) True, of bc s1 s2 aai avi] show ?thesis
    by blast
next
  case False
  then obtain b p q where guard: "ab = Some b" "ac" "g1 = Some p" "g2 = Some q"
    and "act = ''start'' \<or> act = ''jump''"
    by blast
  then show ?thesis
  proof (elim disjE)
    assume "act = ''start''"
    with blink_start [OF assms(1), of bc b s1 s2 p q aai avi] guard show ?thesis
      by auto
  next
    assume jump: "act = ''jump''"
    with assms(2) guard have "0 \<le> rnd k" "0 < duration b"
      by simp_all
    from blink_jump [OF assms(1) random_offset_accepted [OF this], of bc s1 s2 p q aai avi]
      guard jump
    show ?thesis
      by auto
  qed
qed

lemma returned_simps [simp]:
  "returned None = None" "returned (Some (Inl e)) = None" "returned (Some (Inr x)) = Some x"
  by (simp_all add: returned_def)

text \<open>C3: whatever the random sequence, as long as its values lie in \<open>[0, 1)\<close>: with more
  than one video, the index \<open>blink\<close> returns lies in \<open>[0, numVideos)\<close> and differs from
  \<open>currentVideoIndex\<close>, and the call ends as soon as one draw differs from the current
  index, with a result whenever its audio call does not raise, which no buffer of positive
  duration lets it do; with exactly one video the call ends and the index it returns
  is 0.\<close>

theorem blink_selects_other_video:
  assumes "\<forall>k. 0 \<le> rnd k \<and> rnd k < 1"
  shows
    "(1 < N \<longrightarrow>
       (\<forall>res w'. blink rnd w bc N ab ac s1 s2 g1 g2 aai avi act cur = Some (Inr (res, w')) \<longrightarrow>
          0 \<le> currentVideoIndex res \<and> currentVideoIndex res < N \<and>
          cur \<noteq> Some (currentVideoIndex res))) \<and>
     (1 < N \<and> (\<exists>m. cur \<noteq> Some \<lfloor>rnd (rng w + m) * of_int N\<rfloor>) \<longrightarrow>
        blink rnd w bc N ab ac s1 s2 g1 g2 aai avi act cur \<noteq> None) \<and>
     (1 < N \<and> (\<exists>m. cur \<noteq> Some \<lfloor>rnd (rng w + m) * of_int N\<rfloor>) \<and>
        (act = ''jump'' \<longrightarrow> (\<forall>b. ab = Some b \<longrightarrow> 0 < duration b)) \<longrightarrow>
        (\<exists>res w'. blink rnd w bc N ab ac s1 s2 g1 g2 aai avi act cur = Some (Inr (res, w')))) \<and>
     blink rnd w bc 1 ab ac s1 s2 g1 g2 aai avi act cur \<noteq> None \<and>
     (\<forall>res w'. blink rnd w bc 1 ab ac s1 s2 g1 g2 aai avi act cur = Some (Inr (res, w')) \<longrightarrow>
        currentVideoIndex res = 0) \<and>
     ((act = ''jump'' \<longrightarrow> (\<forall>b. ab = Some b \<longrightarrow> 0 < duration b)) \<longrightarrow>
        video_choice (blink rnd w bc 1 ab ac s1 s2 g1 g2 aai avi act cur) = Some 0)"
proof -
  have range: "1 < N \<longrightarrow>
       (\<forall>res w'. blink rnd w bc N ab ac s1 s2 g1 g2 aai avi act cur = Some (Inr (res, w')) \<longrightarrow>
          0 \<le> currentVideoIndex res \<and> currentVideoIndex res < N \<and>
          cur \<noteq> Some (currentVideoIndex res))"
  proof (intro impI allI)
    fix res w'
    assume N: "1 < N"
      and ret: "blink rnd w bc N ab ac s1 s2 g1 g2 aai avi act cur = Some (Inr (res, w'))"
    from blink_video(1) [OF ret] obtain k
      where "pickLoop rnd (rng w) N cur = Some (currentVideoIndex res, k)" ..
    from pickLoop_result [OF this] obtain m
      where v: "currentVideoIndex res = \<lfloor>rnd (rng w + m) * of_int N\<rfloor>"
        and other: "\<not> (Some (currentVideoIndex res) = cur \<and> 1 < N)"
      by blast
    have "0 \<le> rnd (rng w + m)" "rnd (rng w + m) < 1"
      using assms by simp_all
    from index_in_range [OF this, of N] N v other
    show "0 \<le> currentVideoIndex res \<and> currentVideoIndex res < N \<and>
          cur \<noteq> Some (currentVideoIndex res)"
      by auto
  qed
  have ends: "pickLoop rnd (rng w) N cur \<noteq> None"
    if "1 < N \<and> (\<exists>m. cur \<noteq> Some \<lfloor>rnd (rng w + m) * of_int N\<rfloor>)"
  proof -
    from that have "\<exists>m. \<not> (Some \<lfloor>rnd (rng w + m) * of_int N\<rfloor> = cur \<and> 1 < N)"
      by auto
    then show ?thesis
      by (rule pickLoop_returns)
  qed
  have nonnull: "1 < N \<and> (\<exists>m. cur \<noteq> Some \<lfloor>rnd (rng w + m) * of_int N\<rfloor>) \<longrightarrow>
        blink rnd w bc N ab ac s1 s2 g1 g2 aai avi act cur \<noteq> None"
    using ends by (simp add: blink_none)
  have result: "1 < N \<and> (\<exists>m. cur \<noteq> Some \<lfloor>rnd (rng w + m) * of_int N\<rfloor>) \<and>
        (act = ''jump'' \<longrightarrow> (\<forall>b. ab = Some b \<longrightarrow> 0 < duration b)) \<longrightarrow>
        (\<exists>res w'. blink rnd w bc N ab ac s1 s2 g1 g2 aai avi act cur = Some (Inr (res, w')))"
  proof
    assume a: "1 < N \<and> (\<exists>m. cur \<noteq> Some \<lfloor>rnd (rng w + m) * of_int N\<rfloor>) \<and>
        (act = ''jump'' \<longrightarrow> (\<forall>b. ab = Some b \<longrightarrow> 0 < duration b))"
    with ends obtain v k where pick: "pickLoop rnd (rng w) N cur = Some (v, k)"
      by auto
    have "act = ''jump'' \<longrightarrow> 0 \<le> rnd k \<and> (\<forall>b. ab = Some b \<longrightarrow> 0 < duration b)"
      using a assms by simp
    from blink_returns [OF pick this]
    show "\<exists>res w'. blink rnd w bc N ab ac s1 s2 g1 g2 aai avi act cur = Some (Inr (res, w'))" .
  qed
  have "0 \<le> rnd (rng w)" "rnd (rng w) < 1"
    using assms by simp_all
  then have zero: "\<lfloor>rnd (rng w)\<rfloor> = 0"
    by (simp add: floor_eq_iff)
  have pick1: "pickLoop rnd (rng w) 1 cur = Some (0, Suc (rng w))"
    using pickLoop_one_draw [of rnd "rng w" 1 cur] zero by simp
  then have single: "blink rnd w bc 1 ab ac s1 s2 g1 g2 aai avi act cur \<noteq> None"
    by (simp add: blink_none)
  have single_index: "\<forall>res w'.
      blink rnd w bc 1 ab ac s1 s2 g1 g2 aai avi act cur = Some (Inr (res, w')) \<longrightarrow>
        currentVideoIndex res = 0"
  proof (intro allI impI)
    fix res w'
    assume "blink rnd w bc 1 ab ac s1 s2 g1 g2 aai avi act cur = Some (Inr (res, w'))"
    from blink_video(1) [OF this] pick1 show "currentVideoIndex res = 0"
      by simp
  qed
  have single_result: "(act = ''jump'' \<longrightarrow> (\<forall>b. ab = Some b \<longrightarrow> 0 < duration b)) \<longrightarrow>
        video_choice (blink rnd w bc 1 ab ac s1 s2 g1 g2 aai avi act cur) = Some 0"
  proof
    assume a: "act = ''jump'' \<longrightarrow> (\<forall>b. ab = Some b \<longrightarrow> 0 < duration b)"
    have "act = ''jump'' \<longrightarrow>
        0 \<le> rnd (Suc (rng w)) \<and> (\<forall>b. ab = Some b \<longrightarrow> 0 < duration b)"
      using a assms by simp
    from blink_returns [OF pick1 this] obtain res w' where
      ret: "blink rnd w bc 1 ab ac s1 s2 g1 g2 aai avi act cur = Some (Inr (res, w'))"
      by blast
    with single_index have "currentVideoIndex res = 0"
      by blast
    with ret show "video_choice (blink rnd w bc 1 ab ac s1 s2 g1 g2 aai avi act cur) = Some 0"
      by (simp add: video_choice_def)
  qed
  from range nonnull result single single_index single_result show ?thesis
    by (intro conjI)
qed

theorem blink_selects_other_video_witness:
  "video_choice (blink rnd_zero fresh_world 1 5 None False None None None None 1 1 ''none''
     (Some 3)) = Some 0 \<and>
   video_choice (blink rnd_zero fresh_world 1 1 None False None None None None 1 1 ''none''
     (Some 0)) = Some 0"
proof -
  have rnd: "\<forall>k. 0 \<le> rnd_zero k \<and> rnd_zero k < 1"
    by (simp add: rnd_zero_def)
  note inst = blink_selects_other_video [OF rnd]
  have differs: "\<exists>m. Some (3 :: int) \<noteq> Some \<lfloor>rnd_zero (rng fresh_world + m) * of_int 5\<rfloor>"
    by (simp add: rnd_zero_def)
  from inst [of 5 fresh_world 1 None False None None None None 1 1 "''none''" "Some 3"] differs
  obtain res w' where ret:
    "blink rnd_zero fresh_world 1 5 None False None None None None 1 1 ''none'' (Some 3)
       = Some (Inr (res, w'))"
    by auto
  from blink_video(1) [OF ret] have "currentVideoIndex res = 0"
    by (simp add: pickLoop_rnd_zero)
  moreover from inst [of 5 fresh_world 1 None False None None None None 1 1 "''none''" "Some 3"]
    ret
  have "0 \<le> currentVideoIndex res \<and> currentVideoIndex res < 5 \<and>
    Some 3 \<noteq> Some (currentVideoIndex res)"
    by simp
  ultimately have first:
    "video_choice (blink rnd_zero fresh_world 1 5 None False None None None None 1 1 ''none''
       (Some 3)) = Some 0"
    using ret by (simp add: video_choice_def)
  from inst [of 5 fresh_world 1 None False None None None None 1 1 "''none''" "Some 0"]
  have "video_choice (blink rnd_zero fresh_world 1 1 None False None None None None 1 1 ''none''
     (Some 0)) = Some 0"
    by simp
  with first show ?thesis
    by simp
qed

text \<open>C9: with the audio action \<open>none\<close>, whenever the selection of the video ends, \<open>blink\<close>
  returns, and it returns \<open>audioSource1\<close>, \<open>audioSource2\<close> and \<open>activeAudioIndex\<close> as they
  were passed in; the source nodes, the gain nodes, the pending timers and the clock of the
  audio context are as before the call: no audio call was made.\<close>

theorem blink_none_keeps_audio:
  "(\<forall>res w'.
      blink rnd w bc N ab ac s1 s2 g1 g2 aai avi ''none'' cur = Some (Inr (res, w')) \<longrightarrow>
      audioSource1 res = s1 \<and> audioSource2 res = s2 \<and> activeAudioIndex res = aai \<and>
      sources w' = sources w \<and> gains w' = gains w \<and> timers w' = timers w \<and>
      currentTime w' = currentTime w) \<and>
   (pickLoop rnd (rng w) N cur \<noteq> None \<longrightarrow>
      (\<exists>res w'. blink rnd w bc N ab ac s1 s2 g1 g2 aai avi ''none'' cur = Some (Inr (res, w'))))"
proof (intro conjI impI allI)
  fix res w'
  assume ret: "blink rnd w bc N ab ac s1 s2 g1 g2 aai avi ''none'' cur = Some (Inr (res, w'))"
  from blink_video(1) [OF ret] obtain k
    where "pickLoop rnd (rng w) N cur = Some (currentVideoIndex res, k)" ..
  from blink_no_audio_action [OF this, of "''none''" ab ac g1 g2 bc s1 s2 aai avi] ret
  have res: "res = \<lparr>audioSource1 = s1, audioSource2 = s2, activeAudioIndex = aai,
      activeVideoIndex = (if avi = 1 then 2 else 1),
      currentVideoIndex = currentVideoIndex res\<rparr>"
    and "sources w' = sources w" "gains w' = gains w" "timers w' = timers w"
      "currentTime w' = currentTime w"
    by auto
  then show "sources w' = sources w" "gains w' = gains w" "timers w' = timers w"
    "currentTime w' = currentTime w"
    by simp_all
  show "audioSource1 res = s1" "audioSource2 res = s2" "activeAudioIndex res = aai"
    by (subst res, simp)+
next
  assume "pickLoop rnd (rng w) N cur \<noteq> None"
  then obtain v k where "pickLoop rnd (rng w) N cur = Some (v, k)"
    by auto
  from blink_returns [OF this, of "''none''" ab bc ac s1 s2 g1 g2 aai avi]
  show "\<exists>res w'. blink rnd w bc N ab ac s1 s2 g1 g2 aai avi ''none'' cur = Some (Inr (res, w'))"
    by simp
qed

theorem blink_none_keeps_audio_witness:
  "pickLoop rnd_zero (rng started_world) 5 (Some 2) \<noteq> None \<and>
   audio_snapshot (blink rnd_zero started_world 3 5 (Some ten_seconds) True (Some 0) None
     (Some 0) (Some 1) 1 1 ''none'' (Some 2)) = Some (Some 0, None, 1)"
proof -
  have pick: "pickLoop rnd_zero (rng started_world) 5 (Some 2) \<noteq> None"
    by (simp add: pickLoop_rnd_zero)
  note inst = blink_none_keeps_audio [of rnd_zero started_world 3 5 "Some ten_seconds" True
    "Some 0" None "Some 0" "Some 1" 1 1 "Some 2"]
  from inst pick obtain res w' where ret:
    "blink rnd_zero started_world 3 5 (Some ten_seconds) True (Some 0) None
       (Some 0) (Some 1) 1 1 ''none'' (Some 2) = Some (Inr (res, w'))"
    by auto
  with inst have "audioSource1 res = Some 0 \<and> audioSource2 res = None \<and> activeAudioIndex res = 1"
    by simp
  with ret pick show ?thesis
    by (simp add: audio_snapshot_def)
qed

text \<open>C10: whatever the page holds (both video elements, one, or none) and whatever the
  other arguments are, the \<open>activeVideoIndex\<close> that \<open>blink\<close> returns is 2 when it was called
  with 1 and 1 when it was called with 2 (and 1 for any other value). The call ends
  whenever the selection of the video ends, before any load-complete handler can run, and
  it ends with a result unless its audio call raises, which a draw that is not negative and
  a buffer of positive duration do not let it do.\<close>

theorem blink_flips_active_video:
  "(\<forall>res w'. blink rnd w bc N ab ac s1 s2 g1 g2 aai avi act cur = Some (Inr (res, w')) \<longrightarrow>
      activeVideoIndex res = (if avi = 1 then 2 else 1) \<and>
      (avi = 1 \<longrightarrow> activeVideoIndex res = 2) \<and> (avi = 2 \<longrightarrow> activeVideoIndex res = 1)) \<and>
   (pickLoop rnd (rng w) N cur \<noteq> None \<longrightarrow>
      blink rnd w bc N ab ac s1 s2 g1 g2 aai avi act cur \<noteq> None) \<and>
   (\<forall>v k. pickLoop rnd (rng w) N cur = Some (v, k) \<and>
      (act = ''jump'' \<longrightarrow> 0 \<le> rnd k \<and> (\<forall>b. ab = Some b \<longrightarrow> 0 < duration b)) \<longrightarrow>
      (\<exists>res w'. blink rnd w bc N ab ac s1 s2 g1 g2 aai avi act cur = Some (Inr (res, w'))))"
proof (intro conjI impI allI)
  fix res w'
  assume ret: "blink rnd w bc N ab ac s1 s2 g1 g2 aai avi act cur = Some (Inr (res, w'))"
  from blink_video(2) [OF ret]
  show "activeVideoIndex res = (if avi = 1 then 2 else 1)" .
  then show "activeVideoIndex res = 2" if "avi = 1"
    using that by simp
  from blink_video(2) [OF ret] show "activeVideoIndex res = 1" if "avi = 2"
    using that by simp
next
  assume "pickLoop rnd (rng w) N cur \<noteq> None"
  then show "blink rnd w bc N ab ac s1 s2 g1 g2 aai avi act cur \<noteq> None"
    by (simp add: blink_none)
next
  fix v k
  assume "pickLoop rnd (rng w) N cur = Some (v, k) \<and>
      (act = ''jump'' \<longrightarrow> 0 \<le> rnd k \<and> (\<forall>b. ab = Some b \<longrightarrow> 0 < duration b))"
  then have "pickLoop rnd (rng w) N cur = Some (v, k)"
    and "act = ''jump'' \<longrightarrow> 0 \<le> rnd k \<and> (\<forall>b. ab = Some b \<longrightarrow> 0 < duration b)"
    by simp_all
  then show "\<exists>res w'. blink rnd w bc N ab ac s1 s2 g1 g2 aai avi act cur = Some (Inr (res, w'))"
    by (rule blink_returns)
qed

theorem blink_flips_active_video_witness:
  "pickLoop rnd_zero (rng no_page_world) 5 None \<noteq> None \<and>
   video_flag (blink rnd_zero no_page_world 0 5 None False None None None None 1 1 ''none'' None)
     = Some 2 \<and>
   video_flag (blink rnd_zero no_page_world 0 5 None False None None None None 1 2 ''none'' None)
     = Some 1"
proof -
  have pick: "pickLoop rnd_zero (rng no_page_world) 5 None = Some (0, Suc (rng no_page_world))"
    by (simp add: pickLoop_rnd_zero)
  note one = blink_flips_active_video [of rnd_zero no_page_world 0 5 None False None None None
    None 1 1 "''none''" None]
  note two = blink_flips_active_video [of rnd_zero no_page_world 0 5 None False None None None
    None 1 2 "''none''" None]
  from one pick obtain res w' where ret:
    "blink rnd_zero no_page_world 0 5 None False None None None None 1 1 ''none'' None
       = Some (Inr (res, w'))"
    by auto
  with one have "activeVideoIndex res = 2"
    by simp
  with ret have first:
    "video_flag (blink rnd_zero no_page_world 0 5 None False None None None None 1 1 ''none''
       None) = Some 2"
    by (simp add: video_flag_def)
  from two pick obtain res2 w2 where ret2:
    "blink rnd_zero no_page_world 0 5 None False None None None None 1 2 ''none'' None
       = Some (Inr (res2, w2))"
    by auto
  with two have "activeVideoIndex res2 = 1"
    by simp
  with ret2 have
    "video_flag (blink rnd_zero no_page_world 0 5 None False None None None None 1 2 ''none''
       None) = Some 1"
    by (simp add: video_flag_def)
  with first pick show ?thesis
    by simp
qed




section \<open>The start offset of a new unit\<close>

lemma crossfade_new_unit:
  assumes "playAudioWithCrossfade w b a ag ig t d = Inr r"
  shows "new_unit r = started_node b (ToGain ig) (js_rem t (duration b))"
proof -
  obtain w' n where r: "r = (w', n)"
    by (cases r)
  from crossfade_Inr(2,3) [OF assms [unfolded r]] show ?thesis
    by (simp add: new_unit_def r)
qed

lemma playAudioFrom_raises:
  assumes "start_error (js_rem t (duration b)) = Some e"
  shows "playAudioFrom w b None t = Inl e"
  using assms by (simp add: playAudioFrom_def Let_def split_def source_start_fresh)

lemma playAudioFrom_after_stop:
  "playAudioFrom w b (Some h) t =
     (case source_stop h w of Inl e \<Rightarrow> Inl e | Inr w0 \<Rightarrow> playAudioFrom w0 b None t)"
  by (simp add: playAudioFrom_def split: sum.splits)

lemma playAudioFrom_no_current:
  assumes "start_error (js_rem t (duration b)) = None"
  shows "\<exists>r. playAudioFrom w b None t = Inr r \<and>
           new_unit r = started_node b ToDestination (js_rem t (duration b))"
  using assms
  by (simp add: playAudioFrom_def Let_def split_def source_start_fresh new_unit_def
        started_node_def)

lemma playAudioFrom_returns:
  assumes ok: "start_error (js_rem t (duration b)) = None"
    and started: "\<forall>h. c = Some h \<longrightarrow> h < length (sources w) \<and> phase (sources w ! h) \<noteq> Created"
  shows "\<exists>r. playAudioFrom w b c t = Inr r \<and>
           new_unit r = started_node b ToDestination (js_rem t (duration b))"
proof (cases c)
  case None
  with playAudioFrom_no_current [OF ok] show ?thesis
    by simp
next
  case (Some h)
  with started have h: "h < length (sources w)" "phase (sources w ! h) \<noteq> Created"
    by simp_all
  then have "phase (sources w ! h) = Playing \<or> phase (sources w ! h) = Stopped"
    by (cases "phase (sources w ! h)") simp_all
  with h obtain w0 where "source_stop h w = Inr w0"
    by (auto simp: source_stop_def)
  with playAudioFrom_no_current [OF ok, of w0] Some show ?thesis
    by (simp add: playAudioFrom_after_stop)
qed

text \<open>For a start time that is not negative and a buffer of positive duration both
  functions do start the new unit at the start time modulo the duration, a position in
  \<open>[0, duration)\<close>, and the unit loops the whole buffer. \<open>playAudioFrom\<close> returns
  whenever its current source is null or a unit that was started.\<close>

lemma nonnegative_start_offset:
  assumes "0 \<le> startTime" and "0 < duration b"
  shows
    "(\<exists>r. playAudioWithCrossfade w b a ag ig startTime d = Inr r \<and>
        new_unit r = started_node b (ToGain ig) (Num (real_mod startTime (duration b)))) \<and>
     ((\<forall>h. c = Some h \<longrightarrow> h < length (sources w) \<and> phase (sources w ! h) \<noteq> Created) \<longrightarrow>
      (\<exists>r. playAudioFrom w b c startTime = Inr r \<and>
        new_unit r = started_node b ToDestination (Num (real_mod startTime (duration b))))) \<and>
     0 \<le> real_mod startTime (duration b) \<and> real_mod startTime (duration b) < duration b \<and>
     loop (started_node b x off) \<and> loopStart (started_node b x off) = 0 \<and>
     loopEnd (started_node b x off) = duration b \<and>
     startOffset (started_node b x off) = off"
proof -
  have rem: "js_rem startTime (duration b) = Num (real_mod startTime (duration b))"
    using assms by (rule js_rem_nonneg)
  have ok: "start_error (js_rem startTime (duration b)) = None"
    using assms by (rule nonneg_offset_accepted)
  from crossfade_returns [OF ok, of w a ag ig d] obtain w' where
    ret: "playAudioWithCrossfade w b a ag ig startTime d = Inr (w', length (sources w))"
    by blast
  from crossfade_new_unit [OF ret] ret
  have "\<exists>r. playAudioWithCrossfade w b a ag ig startTime d = Inr r \<and>
        new_unit r = started_node b (ToGain ig) (Num (real_mod startTime (duration b)))"
    by (simp add: rem)
  moreover have
    "(\<forall>h. c = Some h \<longrightarrow> h < length (sources w) \<and> phase (sources w ! h) \<noteq> Created) \<longrightarrow>
      (\<exists>r. playAudioFrom w b c startTime = Inr r \<and>
        new_unit r = started_node b ToDestination (Num (real_mod startTime (duration b))))"
    using playAudioFrom_returns [OF ok, of c w] by (simp add: rem)
  moreover have "0 \<le> real_mod startTime (duration b)"
    and "real_mod startTime (duration b) < duration b"
    using assms(2) by (rule real_mod_range)+
  moreover have "loop (started_node b x off) \<and> loopStart (started_node b x off) = 0 \<and>
     loopEnd (started_node b x off) = duration b \<and>
     startOffset (started_node b x off) = off"
    by (simp add: started_node_def)
  ultimately show ?thesis
    by blast
qed

text \<open>C5: the code misses the claim for a negative start time. The remainder operator of
  the source gives its result the sign of the dividend, so the start time -1 on a buffer of
  10 seconds yields the offset -1, where the position modulo the duration, in \<open>[0, 10)\<close>,
  is 9. The audio primitive refuses the negative offset: \<open>playAudioWithCrossfade\<close> and
  \<open>playAudioFrom\<close> both raise a RangeError and start no unit.\<close>

theorem negative_start_raises:
  "js_rem (- 1) (duration ten_seconds) = Num (- 1) \<and>
   real_mod (- 1) (duration ten_seconds) = 9 \<and>
   playAudioWithCrossfade started_world ten_seconds (Some 0) 0 1 (- 1)
     default_crossfadeDuration = Inl RangeError \<and>
   playAudioFrom fresh_world ten_seconds None (- 1) = Inl RangeError"
proof (intro conjI)
  have "\<lceil>- (1 / 10) :: real\<rceil> = 0"
    by (simp add: ceiling_eq_iff)
  then show rem: "js_rem (- 1) (duration ten_seconds) = Num (- 1)"
    by (simp add: js_rem_def js_trunc_def ten_seconds_def)
  show "real_mod (- 1) (duration ten_seconds) = 9"
    by (simp add: real_mod_def ten_seconds_def)
  have refused: "start_error (js_rem (- 1) (duration ten_seconds)) = Some RangeError"
    by (simp add: rem start_error_def)
  show "playAudioWithCrossfade started_world ten_seconds (Some 0) 0 1 (- 1)
     default_crossfadeDuration = Inl RangeError"
    using refused by (rule crossfade_raises)
  show "playAudioFrom fresh_world ten_seconds None (- 1) = Inl RangeError"
    using refused by (rule playAudioFrom_raises)
qed

end
